theory Spec2Isabelle
  imports Complex_Main "HOL-Library.Product_Lexorder" "HOL-Library.AList"
begin

section \<open>Python values\<close>

text \<open>
  Simulation times are Python numbers (\<^verbatim>\<open>int\<close> or \<^verbatim>\<open>float\<close>). They are modelled as
  rationals with exact arithmetic; every concrete time used below is a small dyadic
  rational, where Python's floating point arithmetic is exact as well.
\<close>

text \<open>Python's \<^verbatim>\<open>round(x)\<close> with one argument: nearest integer, ties to the even one.\<close>

definition py_round :: "rat \<Rightarrow> int" where
  "py_round x =
     (let f = \<lfloor>x\<rfloor>; d = x - of_int f
      in if d < 1 / 2 then f else if 1 / 2 < d then f + 1 else if even f then f else f + 1)"

text \<open>Python's \<^verbatim>\<open>a % b\<close> and \<^verbatim>\<open>a // b\<close> (floored division), used with positive \<open>b\<close> only.\<close>

definition py_floordiv :: "rat \<Rightarrow> rat \<Rightarrow> int" where
  "py_floordiv a b = \<lfloor>a / b\<rfloor>"

definition py_mod :: "rat \<Rightarrow> rat \<Rightarrow> rat" where
  "py_mod a b = a - b * of_int (py_floordiv a b)"

text \<open>\<^verbatim>\<open>diagnosis in [...]\<close> for a diagnosis that may be \<^verbatim>\<open>None\<close>.\<close>

definition py_in :: "string option \<Rightarrow> string list \<Rightarrow> bool" where
  "py_in d xs = (case d of None \<Rightarrow> False | Some s \<Rightarrow> s \<in> set xs)"

text \<open>The only exception the modelled methods can raise: reading a local variable that
  no executed statement has bound.\<close>

datatype py_error = UnboundLocalError

section \<open>Data model\<close>

datatype ResourceType = OR | A_BED | B_BED | INTAKE | ER_PRACTITIONER

type_synonym capacity_entry = "ResourceType \<times> rat \<times> int"

text \<open>The three dictionaries of \<^verbatim>\<open>OptimizedPlanner.__init__\<close> (the same in both files).\<close>

record 'c OptimizedPlanner =
  patient_diagnoses :: "'c \<rightharpoonup> string"
  patient_first_plan :: "'c \<rightharpoonup> rat"
  last_replanned :: "'c \<rightharpoonup> rat"

definition OptimizedPlanner_init :: "'c OptimizedPlanner" where
  "OptimizedPlanner_init =
     \<lparr>patient_diagnoses = Map.empty, patient_first_plan = Map.empty,
      last_replanned = Map.empty\<rparr>"

text \<open>An entry of \<^verbatim>\<open>patient_info\<close> in \<^verbatim>\<open>HeuristicPlanner\<close>: a dictionary whose keys
  \<^verbatim>\<open>"arrival_time"\<close> and \<^verbatim>\<open>"diagnosis"\<close> may be absent.\<close>

record info =
  info_arrival_time :: "rat option"
  info_diagnosis :: "string option"

section \<open>HeuristicPlanner.py\<close>

text \<open>
  \<^verbatim>\<open>self.patient_info\<close> is not assigned in \<^verbatim>\<open>HeuristicPlanner.__init__\<close>; it is taken as
  a parameter here (the base class \<^verbatim>\<open>Planner\<close> is not part of the sources).
\<close>

definition calculate_priority :: "('c \<rightharpoonup> info) \<Rightarrow> 'c \<Rightarrow> rat \<Rightarrow> bool \<Rightarrow> rat" where
  "calculate_priority patient_info case_id simulation_time is_replan =
     (let inf = (case patient_info case_id of
                   None \<Rightarrow> \<lparr>info_arrival_time = None, info_diagnosis = None\<rparr>
                 | Some i \<Rightarrow> i);
          arrival_time = (case info_arrival_time inf of
                            None \<Rightarrow> simulation_time | Some a \<Rightarrow> a);
          waiting_time = simulation_time - arrival_time;
          diagnosis = info_diagnosis inf;
          waiting_weight = 1;
          diagnosis_weight = 10;
          severity_score =
            (if diagnosis \<noteq> None then
               (if diagnosis = Some ''B1'' then 3
                else if diagnosis = Some ''A2'' then 2
                else if diagnosis = Some ''A3'' then 1
                else 0)
             else 0);
          replanning_penalty = (if is_replan then 20 else 0)
      in waiting_weight * waiting_time + diagnosis_weight * severity_score
           + replanning_penalty)"

text \<open>
  \<^verbatim>\<open>priority_dict\<close> keeps insertion order and overwrites in place, as \<open>AList.update\<close>
  does; \<^verbatim>\<open>sorted(..., reverse=True)\<close> is stable: it reverses, sorts and reverses again.
\<close>

definition HeuristicPlanner_plan ::
  "('c \<rightharpoonup> info) \<Rightarrow> 'c list \<Rightarrow> 'c list \<Rightarrow> rat \<Rightarrow> ('c \<times> rat) list" where
  "HeuristicPlanner_plan patient_info cases_to_plan cases_to_replan simulation_time =
     (let priority_dict =
            fold (\<lambda>case_id d.
                    AList.update case_id
                      (calculate_priority patient_info case_id simulation_time False) d)
              cases_to_plan [];
          priority_dict =
            fold (\<lambda>case_id d.
                    AList.update case_id
                      (calculate_priority patient_info case_id simulation_time True) d)
              cases_to_replan priority_dict;
          sorted_cases = rev (sort_key snd (rev priority_dict))
      in map (\<lambda>(case_id, priority).
                (case_id,
                 if priority > 100 then simulation_time + 24 else simulation_time + 48))
           sorted_cases)"

definition HeuristicPlanner_schedule :: "rat \<Rightarrow> capacity_entry list" where
  "HeuristicPlanner_schedule simulation_time =
     (let hour_of_week = py_mod simulation_time 168;
          day_of_week = py_floordiv hour_of_week 24;
          is_weekday = (day_of_week < 5)
      in if is_weekday then
           [(OR, simulation_time + 158, 5),
            (A_BED, simulation_time + 158, 30),
            (B_BED, simulation_time + 158, 40),
            (INTAKE, simulation_time + 158, 4),
            (ER_PRACTITIONER, simulation_time + 158, 9),
            (OR, simulation_time + 168, 1),
            (INTAKE, simulation_time + 168, 1)]
         else
           [(OR, simulation_time + 158, 1),
            (A_BED, simulation_time + 158, 30),
            (B_BED, simulation_time + 158, 10),
            (INTAKE, simulation_time + 158, 1),
            (ER_PRACTITIONER, simulation_time + 158, 4),
            (OR, simulation_time + 168, 1),
            (INTAKE, simulation_time + 168, 1)])"

section \<open>Code shared by OptimizedPlanner.py and OptimizedPlanner2.0.py\<close>

text \<open>The statements below stand in both files with the same text.\<close>

text \<open>\<^verbatim>\<open>day_of_week = int((simulation_time // 24) % 7)\<close>\<close>

definition day_of_week_of :: "rat \<Rightarrow> int" where
  "day_of_week_of simulation_time = py_floordiv simulation_time 24 mod 7"

text \<open>\<^verbatim>\<open>hour_of_day = int(simulation_time % 24)\<close>\<close>

definition hour_of_day_of :: "rat \<Rightarrow> int" where
  "hour_of_day_of simulation_time = \<lfloor>py_mod simulation_time 24\<rfloor>"

text \<open>
  \<^verbatim>\<open>for day_offset in range(14): target_day = (day_of_week + day_offset + 1) % 7\<close>,
  as \<^verbatim>\<open>plan\<close> runs it: the first iteration binds \<^verbatim>\<open>target_day\<close>, the other thirteen
  overwrite it.
\<close>

definition target_day_loop :: "int \<Rightarrow> int" where
  "target_day_loop day_of_week =
     fold (\<lambda>day_offset target_day. (day_of_week + int day_offset + 1) mod 7)
       [1..<14] ((day_of_week + 0 + 1) mod 7)"

text \<open>\<^verbatim>\<open>default_max\<close> of \<^verbatim>\<open>get_current\<close>, and \<^verbatim>\<open>default_max.get(res_type, 0)\<close>.\<close>

definition default_max :: "(ResourceType \<times> int) list" where
  "default_max = [(OR, 5), (A_BED, 30), (B_BED, 40), (INTAKE, 4), (ER_PRACTITIONER, 9)]"

definition default_max_get :: "ResourceType \<Rightarrow> int" where
  "default_max_get res_type = (case map_of default_max res_type of None \<Rightarrow> 0 | Some n \<Rightarrow> n)"

text \<open>
  The maximum number of resources per type, as the docstring of
  \<^verbatim>\<open>HeuristicPlanner.schedule\<close> gives them: (5, 30, 40, 4, 9).
\<close>

definition resource_max :: "ResourceType \<Rightarrow> int" where
  "resource_max res_type =
     (case res_type of OR \<Rightarrow> 5 | A_BED \<Rightarrow> 30 | B_BED \<Rightarrow> 40 | INTAKE \<Rightarrow> 4
      | ER_PRACTITIONER \<Rightarrow> 9)"

text \<open>The capacity tables, in the order the dictionaries list their keys.\<close>

definition morning_res :: "int \<Rightarrow> (ResourceType \<times> int) list" where
  "morning_res target_day =
     (if target_day < 5 then
        [(OR, 3), (A_BED, 25), (B_BED, 40), (INTAKE, 4), (ER_PRACTITIONER, 3)]
      else
        [(OR, 2), (A_BED, 13), (B_BED, 40), (INTAKE, 3), (ER_PRACTITIONER, 6)])"

definition afternoon_res :: "int \<Rightarrow> (ResourceType \<times> int) list" where
  "afternoon_res target_day =
     (if target_day < 5 then
        [(OR, 3), (A_BED, 25), (B_BED, 40), (INTAKE, 4), (ER_PRACTITIONER, 3)]
      else
        [(OR, 2), (A_BED, 13), (B_BED, 40), (INTAKE, 2), (ER_PRACTITIONER, 6)])"

text \<open>
  One \<^verbatim>\<open>for res_type, count in ..._res.items()\<close> loop: the triples it appends for the
  checkpoint \<open>time\<close>.
\<close>

definition apply_scheduling ::
  "(rat \<Rightarrow> ResourceType \<Rightarrow> int) \<Rightarrow> rat \<Rightarrow> rat \<Rightarrow> (ResourceType \<times> int) list
     \<Rightarrow> capacity_entry list" where
  "apply_scheduling get_current week_cutoff time res =
     concat (map (\<lambda>(res_type, count).
                    if time < week_cutoff then
                      (let current = get_current time res_type
                       in if count > current then [(res_type, time, count)] else [])
                    else [(res_type, time, count)])
               res)"

text \<open>The body of \<^verbatim>\<open>for day_offset in range(14)\<close> in \<^verbatim>\<open>schedule\<close>.\<close>

definition schedule_day ::
  "(rat \<Rightarrow> ResourceType \<Rightarrow> int) \<Rightarrow> int \<Rightarrow> rat \<Rightarrow> rat \<Rightarrow> nat \<Rightarrow> capacity_entry list" where
  "schedule_day get_current day_of_week next_day week_cutoff day_offset =
     (let target_day = (day_of_week + int day_offset + 1) mod 7;
          target_date = next_day + of_nat day_offset * 24;
          morning = target_date + 8;
          afternoon = target_date + 14
      in apply_scheduling get_current week_cutoff morning (morning_res target_day)
         @ apply_scheduling get_current week_cutoff afternoon (afternoon_res target_day))"

text \<open>\<^verbatim>\<open>schedule\<close> for a given \<^verbatim>\<open>get_current\<close>; the method reads no attribute of
  \<^verbatim>\<open>self\<close> but the collaborator of \<^verbatim>\<open>get_current\<close>, and assigns none.\<close>

definition schedule_with ::
  "(rat \<Rightarrow> ResourceType \<Rightarrow> int) \<Rightarrow> rat \<Rightarrow> capacity_entry list" where
  "schedule_with get_current simulation_time =
     (let hour_of_day = hour_of_day_of simulation_time;
          day_of_week = day_of_week_of simulation_time
      in if hour_of_day \<noteq> 18 then []
         else
           (let next_day = simulation_time + (24 - of_int hour_of_day);
                week_cutoff = simulation_time + 158
            in concat (map (schedule_day get_current day_of_week next_day week_cutoff)
                         [0..<14])))"

section \<open>OptimizedPlanner2.0.py: schedule\<close>

definition get_current2 :: "rat \<Rightarrow> ResourceType \<Rightarrow> int" where
  "get_current2 time res_type = default_max_get res_type"

definition OptimizedPlanner2_schedule ::
  "'c OptimizedPlanner \<Rightarrow> rat \<Rightarrow> capacity_entry list \<times> 'c OptimizedPlanner" where
  "OptimizedPlanner2_schedule self simulation_time =
     (schedule_with get_current2 simulation_time, self)"

section \<open>OptimizedPlanner.py: schedule\<close>

text \<open>
  \<^verbatim>\<open>get_current\<close> asks \<^verbatim>\<open>self.simulator.schedule.get_number_of_resources\<close> when the
  planner has a truthy \<^verbatim>\<open>simulator\<close> attribute. The collaborator is a parameter:
  \<open>None\<close> when the attribute is missing or falsy, otherwise a function that answers
  \<open>None\<close> where the call raises (the \<^verbatim>\<open>except\<close> clause then falls through to
  \<^verbatim>\<open>default_max\<close>).
\<close>

type_synonym simulator = "(ResourceType \<Rightarrow> rat \<Rightarrow> int option) option"

definition get_current1 :: "simulator \<Rightarrow> rat \<Rightarrow> ResourceType \<Rightarrow> int" where
  "get_current1 simulator time res_type =
     (case simulator of
        None \<Rightarrow> default_max_get res_type
      | Some get_number_of_resources \<Rightarrow>
          (case get_number_of_resources res_type time of
             Some n \<Rightarrow> n
           | None \<Rightarrow> default_max_get res_type))"

definition OptimizedPlanner_schedule ::
  "simulator \<Rightarrow> 'c OptimizedPlanner \<Rightarrow> rat \<Rightarrow> capacity_entry list \<times> 'c OptimizedPlanner" where
  "OptimizedPlanner_schedule simulator self simulation_time =
     (schedule_with (get_current1 simulator) simulation_time, self)"

section \<open>The replanning half of plan, shared by both OptimizedPlanner files\<close>

text \<open>\<^verbatim>\<open>wait_time = simulation_time - self.patient_first_plan.get(case_id, simulation_time)\<close>\<close>

definition wait_time_of :: "'c OptimizedPlanner \<Rightarrow> rat \<Rightarrow> 'c \<Rightarrow> rat" where
  "wait_time_of self simulation_time case_id =
     simulation_time
       - (case patient_first_plan self case_id of None \<Rightarrow> simulation_time | Some t \<Rightarrow> t)"

text \<open>
  \<^verbatim>\<open>last_replanned = self.last_replanned.get(case_id, 0)\<close> and
  \<^verbatim>\<open>time_since_replan = simulation_time - last_replanned\<close>
\<close>

definition time_since_replan :: "'c OptimizedPlanner \<Rightarrow> rat \<Rightarrow> 'c \<Rightarrow> rat" where
  "time_since_replan self simulation_time case_id =
     simulation_time - (case last_replanned self case_id of None \<Rightarrow> 0 | Some t \<Rightarrow> t)"

text \<open>
  One iteration of \<^verbatim>\<open>for i in range(max_replans)\<close>: the replanned entries so far and
  the planner, with \<^verbatim>\<open>base_time\<close> bound.
\<close>

definition replan_emit_step ::
  "rat \<Rightarrow> rat \<Rightarrow> ('c \<times> int \<times> rat) list \<Rightarrow> nat
     \<Rightarrow> ('c \<times> int) list \<times> 'c OptimizedPlanner
     \<Rightarrow> ('c \<times> int) list \<times> 'c OptimizedPlanner" where
  "replan_emit_step simulation_time base_time replan_cases i acc =
     (case acc of (planned_cases, self) \<Rightarrow>
        if i < length replan_cases then
          (case replan_cases ! i of (case_id, _, _) \<Rightarrow>
             (let admission_time = base_time + of_nat i
              in (planned_cases @ [(case_id, py_round admission_time)],
                  self\<lparr>last_replanned := (last_replanned self)(case_id \<mapsto> simulation_time)\<rparr>)))
        else acc)"

text \<open>
  The sort of \<^verbatim>\<open>replan_cases\<close> by \<^verbatim>\<open>(priority, -wait_time)\<close> (stable, as \<open>sort_key\<close>
  is) and the loop over \<^verbatim>\<open>range(max_replans)\<close>, for the cap \<open>limit\<close> (10 or 35).
  \<^verbatim>\<open>base_time\<close> is read only when the loop runs at least once.
\<close>

definition replan_emit ::
  "nat \<Rightarrow> rat \<Rightarrow> rat option \<Rightarrow> ('c \<times> int \<times> rat) list \<Rightarrow> 'c OptimizedPlanner
     \<Rightarrow> (py_error + ('c \<times> int) list) \<times> 'c OptimizedPlanner" where
  "replan_emit limit simulation_time base_time_opt replan_cases0 self =
     (let replan_cases = sort_key (\<lambda>(case_id, priority, wait_time). (priority, - wait_time))
                           replan_cases0;
          max_replans = min limit (length replan_cases)
      in if max_replans = 0 then (Inr [], self)
         else
           (case base_time_opt of
              None \<Rightarrow> (Inl UnboundLocalError, self)
            | Some base_time \<Rightarrow>
                (case fold (replan_emit_step simulation_time base_time replan_cases)
                        [0..<max_replans] ([], self) of
                   (replans, self') \<Rightarrow> (Inr replans, self'))))"

section \<open>OptimizedPlanner2.0.py: plan\<close>

text \<open>The local variables that only the body of \<^verbatim>\<open>for case_id in cases_to_plan\<close> binds.\<close>

record plan_locals =
  l_base_time :: "rat option"
  l_target_day :: "int option"

definition new_priority2 :: "int \<Rightarrow> string option \<Rightarrow> int" where
  "new_priority2 target_day diagnosis =
     (if target_day < 5 then
        (if py_in diagnosis [''B1'', ''B2''] then 1
         else if py_in diagnosis [''A3'', ''A4'', ''B3'', ''B4''] then 0
         else 2)
      else
        (if py_in diagnosis [''B1'', ''B2''] then 0
         else if py_in diagnosis [''A3'', ''A4'', ''B3'', ''B4''] then 1
         else 2))"

text \<open>The body of \<^verbatim>\<open>for case_id in cases_to_plan\<close> (lines 39 to 68).\<close>

definition plan_step2 ::
  "rat \<Rightarrow> 'c \<Rightarrow> 'c OptimizedPlanner \<times> plan_locals \<times> ('c \<times> int) list
     \<Rightarrow> 'c OptimizedPlanner \<times> plan_locals \<times> ('c \<times> int) list" where
  "plan_step2 simulation_time case_id acc =
     (case acc of (self, locals, new_cases) \<Rightarrow>
        (let self' =
               (if patient_first_plan self case_id = None then
                  self\<lparr>patient_first_plan :=
                         (patient_first_plan self)(case_id \<mapsto> simulation_time)\<rparr>
                else self);
             base_time = simulation_time + 24;
             diagnosis = patient_diagnoses self' case_id;
             day_of_week = day_of_week_of simulation_time;
             target_day = target_day_loop day_of_week;
             priority = new_priority2 target_day diagnosis
         in (self',
             \<lparr>l_base_time = Some base_time, l_target_day = Some target_day\<rparr>,
             new_cases @ [(case_id, priority)])))"

text \<open>The body of \<^verbatim>\<open>for i, (case_id, priority) in enumerate(new_cases)\<close>.\<close>

definition admission2 :: "rat \<Rightarrow> rat \<Rightarrow> nat \<Rightarrow> int \<Rightarrow> int" where
  "admission2 simulation_time base_time i priority =
     (let admission_time =
            (if priority = 0 then base_time + of_nat i * (1 / 4)
             else if priority = 1 then base_time + 2 + of_nat i * (1 / 4)
             else base_time + 4 + of_nat i * (1 / 4));
          admission_time = max admission_time (simulation_time + 24)
      in py_round admission_time)"

fun plan_new2 ::
  "rat \<Rightarrow> rat option \<Rightarrow> (nat \<times> 'c \<times> int) list \<Rightarrow> py_error + ('c \<times> int) list" where
  "plan_new2 simulation_time base_time_opt [] = Inr []"
| "plan_new2 simulation_time base_time_opt ((i, case_id, priority) # rest) =
     (case base_time_opt of
        None \<Rightarrow> Inl UnboundLocalError
      | Some base_time \<Rightarrow>
          (case plan_new2 simulation_time base_time_opt rest of
             Inl e \<Rightarrow> Inl e
           | Inr planned \<Rightarrow>
               Inr ((case_id, admission2 simulation_time base_time i priority) # planned)))"

definition replan_priority2 :: "int \<Rightarrow> string option \<Rightarrow> rat \<Rightarrow> int" where
  "replan_priority2 target_day diagnosis wait_time =
     (if target_day < 5 then
        (if py_in diagnosis [''B1'', ''B2''] \<or> wait_time > 30 then 0
         else if py_in diagnosis [''A3'', ''A4'', ''B3'', ''B4''] then 1
         else 2)
      else
        (if py_in diagnosis [''B1'', ''B2''] \<or> wait_time > 30 then 1
         else if py_in diagnosis [''A3'', ''A4'', ''B3'', ''B4''] then 0
         else 2))"

text \<open>
  \<^verbatim>\<open>for case_id in cases_to_replan\<close> (lines 88 to 116): the list \<^verbatim>\<open>replan_cases\<close>, or
  the error raised where \<^verbatim>\<open>target_day\<close> is read unbound.
\<close>

fun replan_scan2 ::
  "'c OptimizedPlanner \<Rightarrow> rat \<Rightarrow> int option \<Rightarrow> 'c list
     \<Rightarrow> py_error + ('c \<times> int \<times> rat) list" where
  "replan_scan2 self simulation_time target_day_opt [] = Inr []"
| "replan_scan2 self simulation_time target_day_opt (case_id # rest) =
     (if time_since_replan self simulation_time case_id < 24 then
        replan_scan2 self simulation_time target_day_opt rest
      else
        (case target_day_opt of
           None \<Rightarrow> Inl UnboundLocalError
         | Some target_day \<Rightarrow>
             (case replan_scan2 self simulation_time target_day_opt rest of
                Inl e \<Rightarrow> Inl e
              | Inr replan_cases \<Rightarrow>
                  Inr ((case_id,
                        replan_priority2 target_day (patient_diagnoses self case_id)
                          (wait_time_of self simulation_time case_id),
                        wait_time_of self simulation_time case_id) # replan_cases))))"

text \<open>
  \<^verbatim>\<open>plan\<close>, with the entries of the new cases and the entries of the replanned cases
  kept apart; the method returns the first list followed by the second. The planner
  returned is \<^verbatim>\<open>self\<close> as the call leaves it, also when it raises.
\<close>

definition OptimizedPlanner2_plan_parts ::
  "'c OptimizedPlanner \<Rightarrow> 'c list \<Rightarrow> 'c list \<Rightarrow> rat
     \<Rightarrow> (py_error + ('c \<times> int) list \<times> ('c \<times> int) list) \<times> 'c OptimizedPlanner" where
  "OptimizedPlanner2_plan_parts self cases_to_plan cases_to_replan simulation_time =
     (case fold (plan_step2 simulation_time) cases_to_plan
             (self, \<lparr>l_base_time = None, l_target_day = None\<rparr>, []) of
        (self1, locals, new_cases) \<Rightarrow>
          (case plan_new2 simulation_time (l_base_time locals) (enumerate 0 new_cases) of
             Inl e \<Rightarrow> (Inl e, self1)
           | Inr planned \<Rightarrow>
               (case replan_scan2 self1 simulation_time (l_target_day locals)
                       cases_to_replan of
                  Inl e \<Rightarrow> (Inl e, self1)
                | Inr replan_cases \<Rightarrow>
                    (case replan_emit 35 simulation_time (l_base_time locals)
                            replan_cases self1 of
                       (Inl e, self2) \<Rightarrow> (Inl e, self2)
                     | (Inr replans, self2) \<Rightarrow> (Inr (planned, replans), self2)))))"

definition OptimizedPlanner2_plan ::
  "'c OptimizedPlanner \<Rightarrow> 'c list \<Rightarrow> 'c list \<Rightarrow> rat
     \<Rightarrow> (py_error + ('c \<times> int) list) \<times> 'c OptimizedPlanner" where
  "OptimizedPlanner2_plan self cases_to_plan cases_to_replan simulation_time =
     (case OptimizedPlanner2_plan_parts self cases_to_plan cases_to_replan simulation_time of
        (Inl e, self') \<Rightarrow> (Inl e, self')
      | (Inr (planned, replans), self') \<Rightarrow> (Inr (planned @ replans), self'))"

section \<open>OptimizedPlanner.py: plan\<close>

text \<open>The body of the first \<^verbatim>\<open>for case_id in cases_to_plan\<close> (lines 34 to 36).\<close>

definition record_first_plan :: "rat \<Rightarrow> 'c \<Rightarrow> 'c OptimizedPlanner \<Rightarrow> 'c OptimizedPlanner" where
  "record_first_plan simulation_time case_id self =
     (if patient_first_plan self case_id = None then
        self\<lparr>patient_first_plan := (patient_first_plan self)(case_id \<mapsto> simulation_time)\<rparr>
      else self)"

definition new_priority1 :: "int \<Rightarrow> string option \<Rightarrow> int" where
  "new_priority1 target_day diagnosis =
     (if target_day < 5 then
        (if py_in diagnosis [''B1'', ''B2''] then 1
         else if py_in diagnosis [''A3'', ''A4'', ''B3'', ''B4''] then 0
         else 2)
      else
        (if py_in diagnosis [''B1'', ''B2''] then 0
         else if py_in diagnosis [''A3'', ''A4'', ''B3'', ''B4''] then 1
         else 2))"

definition admission1 :: "rat \<Rightarrow> rat \<Rightarrow> nat \<Rightarrow> int \<Rightarrow> int" where
  "admission1 simulation_time base_time i priority =
     (let admission_time =
            (if priority = 0 then base_time + of_nat i * (1 / 2)
             else if priority = 1 then base_time + 2 + of_nat i * (1 / 2)
             else base_time + 4 + of_nat i * (1 / 2));
          admission_time = max admission_time (simulation_time + 24)
      in py_round admission_time)"

definition replan_priority1 :: "int \<Rightarrow> string option \<Rightarrow> rat \<Rightarrow> int" where
  "replan_priority1 target_day diagnosis wait_time =
     (if target_day > 4 then
        (if py_in diagnosis [''B1'', ''B2''] \<or> wait_time > 30 then 0
         else if py_in diagnosis [''A3'', ''A4'', ''B3'', ''B4''] then 1
         else 2)
      else
        (if py_in diagnosis [''B1'', ''B2''] \<or> wait_time > 30 then 1
         else if py_in diagnosis [''A3'', ''A4'', ''B3'', ''B4''] then 0
         else 2))"

text \<open>\<^verbatim>\<open>for case_id in cases_to_replan\<close> (lines 95 to 121); \<^verbatim>\<open>target_day\<close> is bound here.\<close>

fun replan_scan1 ::
  "'c OptimizedPlanner \<Rightarrow> rat \<Rightarrow> int \<Rightarrow> 'c list \<Rightarrow> ('c \<times> int \<times> rat) list" where
  "replan_scan1 self simulation_time target_day [] = []"
| "replan_scan1 self simulation_time target_day (case_id # rest) =
     (if time_since_replan self simulation_time case_id < 24 then
        replan_scan1 self simulation_time target_day rest
      else
        (case_id,
         replan_priority1 target_day (patient_diagnoses self case_id)
           (wait_time_of self simulation_time case_id),
         wait_time_of self simulation_time case_id)
        # replan_scan1 self simulation_time target_day rest)"

text \<open>
  \<^verbatim>\<open>plan\<close>. The loop of lines 44 and 45 only rebinds \<^verbatim>\<open>case_id\<close> and \<^verbatim>\<open>diagnosis\<close>;
  what follows it stands outside the loop, reads the values of its last iteration and
  raises when there was none.
\<close>

definition OptimizedPlanner_plan_parts ::
  "'c OptimizedPlanner \<Rightarrow> 'c list \<Rightarrow> 'c list \<Rightarrow> rat
     \<Rightarrow> (py_error + ('c \<times> int) list \<times> ('c \<times> int) list) \<times> 'c OptimizedPlanner" where
  "OptimizedPlanner_plan_parts self cases_to_plan cases_to_replan simulation_time =
     (let self1 = fold (record_first_plan simulation_time) cases_to_plan self;
          base_time = simulation_time + 24;
          loop_vars = fold (\<lambda>case_id _. Some (case_id, patient_diagnoses self1 case_id))
                        cases_to_plan None;
          day_of_week = day_of_week_of simulation_time;
          target_day = target_day_loop day_of_week
      in case loop_vars of
           None \<Rightarrow> (Inl UnboundLocalError, self1)
         | Some (case_id, diagnosis) \<Rightarrow>
             (let priority = new_priority1 target_day diagnosis;
                  new_cases = sort_key snd [(case_id, priority)];
                  planned =
                    map (\<lambda>(i, (case_id, priority)).
                           (case_id, admission1 simulation_time base_time i priority))
                      (enumerate 0 new_cases);
                  replan_cases = replan_scan1 self1 simulation_time target_day cases_to_replan
              in case replan_emit 10 simulation_time (Some base_time) replan_cases self1 of
                   (Inl e, self2) \<Rightarrow> (Inl e, self2)
                 | (Inr replans, self2) \<Rightarrow> (Inr (planned, replans), self2)))"

definition OptimizedPlanner_plan ::
  "'c OptimizedPlanner \<Rightarrow> 'c list \<Rightarrow> 'c list \<Rightarrow> rat
     \<Rightarrow> (py_error + ('c \<times> int) list) \<times> 'c OptimizedPlanner" where
  "OptimizedPlanner_plan self cases_to_plan cases_to_replan simulation_time =
     (case OptimizedPlanner_plan_parts self cases_to_plan cases_to_replan simulation_time of
        (Inl e, self') \<Rightarrow> (Inl e, self')
      | (Inr (planned, replans), self') \<Rightarrow> (Inr (planned @ replans), self'))"

section \<open>Sequences of plan calls\<close>

text \<open>
  A call is \<open>(cases_to_plan, cases_to_replan, simulation_time)\<close>. Running a list of
  calls on one planner gives, per call, its time and the case ids of the entries its
  replanning loop emitted (none when the call raised); each call starts from the planner
  the previous one left.
\<close>

type_synonym 'c plan_call = "'c list \<times> 'c list \<times> rat"

definition call_time :: "'c plan_call \<Rightarrow> rat" where
  "call_time call = snd (snd call)"

fun run_plans ::
  "('c OptimizedPlanner \<Rightarrow> 'c list \<Rightarrow> 'c list \<Rightarrow> rat
      \<Rightarrow> (py_error + ('c \<times> int) list \<times> ('c \<times> int) list) \<times> 'c OptimizedPlanner)
   \<Rightarrow> 'c OptimizedPlanner \<Rightarrow> 'c plan_call list \<Rightarrow> 'c list list" where
  "run_plans plan_parts self [] = []"
| "run_plans plan_parts self ((cases_to_plan, cases_to_replan, simulation_time) # calls) =
     (case plan_parts self cases_to_plan cases_to_replan simulation_time of
        (result, self') \<Rightarrow>
          (case result of Inl e \<Rightarrow> [] | Inr (planned, replans) \<Rightarrow> map fst replans)
          # run_plans plan_parts self' calls)"

section \<open>Facts about schedule\<close>

lemma default_max_get_simps:
  "default_max_get OR = 5" "default_max_get A_BED = 30" "default_max_get B_BED = 40"
  "default_max_get INTAKE = 4" "default_max_get ER_PRACTITIONER = 9"
  by (simp_all add: default_max_get_def default_max_def)

lemma default_max_get_resource_max: "default_max_get r = resource_max r"
  by (cases r) (simp_all add: default_max_get_simps resource_max_def)

lemma morning_res_bounds:
  "(r, c) \<in> set (morning_res target_day) \<Longrightarrow> 0 \<le> c \<and> c \<le> default_max_get r"
  by (auto simp: morning_res_def default_max_get_simps split: if_splits)

lemma afternoon_res_bounds:
  "(r, c) \<in> set (afternoon_res target_day) \<Longrightarrow> 0 \<le> c \<and> c \<le> default_max_get r"
  by (auto simp: afternoon_res_def default_max_get_simps split: if_splits)

lemma apply_scheduling_elem:
  "(r, t, c) \<in> set (apply_scheduling get_current week_cutoff time res) \<Longrightarrow>
     t = time \<and> (r, c) \<in> set res \<and> (time < week_cutoff \<longrightarrow> get_current time r < c)"
  by (auto simp: apply_scheduling_def Let_def split: if_splits)

lemma schedule_day_elem:
  "(r, t, c) \<in> set (schedule_day get_current day_of_week next_day week_cutoff day_offset) \<Longrightarrow>
     0 \<le> c \<and> c \<le> default_max_get r \<and> (t < week_cutoff \<longrightarrow> get_current t r < c)"
  unfolding schedule_day_def Let_def set_append Un_iff
  by (elim disjE; frule apply_scheduling_elem)
     (auto dest: morning_res_bounds afternoon_res_bounds)

lemma schedule_with_elem:
  "(r, t, c) \<in> set (schedule_with get_current simulation_time) \<Longrightarrow>
     0 \<le> c \<and> c \<le> default_max_get r \<and>
     (t < simulation_time + 158 \<longrightarrow> get_current t r < c)"
  by (auto simp: schedule_with_def Let_def split: if_splits dest!: schedule_day_elem)


lemma HeuristicPlanner_schedule_elem:
  "(r, t, c) \<in> set (HeuristicPlanner_schedule simulation_time) \<Longrightarrow>
     0 \<le> c \<and> c \<le> default_max_get r \<and> simulation_time + 158 \<le> t"
  by (auto simp: HeuristicPlanner_schedule_def Let_def default_max_get_simps split: if_splits)

section \<open>Facts about the replanning half of plan\<close>

lemma replan_emit_step_fold:
  "n \<le> length xs \<Longrightarrow>
   fold (replan_emit_step sim b xs) [0..<n] ([], self) = (rs, self') \<Longrightarrow>
     map fst rs = map fst (take n xs) \<and>
     patient_diagnoses self' = patient_diagnoses self \<and>
     patient_first_plan self' = patient_first_plan self \<and>
     (\<forall>c. last_replanned self' c =
            (if c \<in> fst ` set (take n xs) then Some sim else last_replanned self c))"
proof (induction n arbitrary: rs self')
  case 0
  then show ?case by simp
next
  case (Suc n)
  obtain rs0 self0 where f0: "fold (replan_emit_step sim b xs) [0..<n] ([], self) = (rs0, self0)"
    by (cases "fold (replan_emit_step sim b xs) [0..<n] ([], self)")
  from Suc.prems have n: "n < length xs" by simp
  from Suc.IH [OF _ f0] n
  have ih: "map fst rs0 = map fst (take n xs)"
    "patient_diagnoses self0 = patient_diagnoses self"
    "patient_first_plan self0 = patient_first_plan self"
    "\<And>c. last_replanned self0 c =
            (if c \<in> fst ` set (take n xs) then Some sim else last_replanned self c)"
    by simp_all
  obtain cid p w where x: "xs ! n = (cid, p, w)" by (cases "xs ! n")
  have "fold (replan_emit_step sim b xs) [0..<Suc n] ([], self)
          = replan_emit_step sim b xs n (rs0, self0)"
    by (simp add: f0)
  with Suc.prems(2) have "replan_emit_step sim b xs n (rs0, self0) = (rs, self')"
    by simp
  with n x
  have rs: "rs = rs0 @ [(cid, py_round (b + of_nat n))]"
    and self': "self' = self0\<lparr>last_replanned := (last_replanned self0)(cid \<mapsto> sim)\<rparr>"
    by (simp_all add: replan_emit_step_def Let_def)
  have tk: "take (Suc n) xs = take n xs @ [(cid, p, w)]"
    using n x by (simp add: take_Suc_conv_app_nth)
  show ?case
    unfolding rs self' tk using ih by auto
qed

lemma replan_emit_facts:
  assumes "replan_emit limit sim bt rc self = (res, self')"
  shows "patient_diagnoses self' = patient_diagnoses self"
    and "patient_first_plan self' = patient_first_plan self"
    and "last_replanned self' c = Some sim \<or> last_replanned self' c = last_replanned self c"
    and "res = Inr replans \<Longrightarrow> c \<in> fst ` set replans \<Longrightarrow>
           last_replanned self' c = Some sim \<and> c \<in> fst ` set rc"
proof -
  let ?xs = "sort_key (\<lambda>(case_id, priority, wait_time). (priority, - wait_time)) rc"
  let ?n = "min limit (length ?xs)"
  have setxs: "set ?xs = set rc" by simp
  show "patient_diagnoses self' = patient_diagnoses self"
    "patient_first_plan self' = patient_first_plan self"
    "last_replanned self' c = Some sim \<or> last_replanned self' c = last_replanned self c"
    "res = Inr replans \<Longrightarrow> c \<in> fst ` set replans \<Longrightarrow>
           last_replanned self' c = Some sim \<and> c \<in> fst ` set rc"
  proof -
    consider (zero) "?n = 0" | (unbound) "?n \<noteq> 0" "bt = None"
      | (run) b where "?n \<noteq> 0" "bt = Some b" by (cases bt) blast+
    then have "patient_diagnoses self' = patient_diagnoses self \<and>
      patient_first_plan self' = patient_first_plan self \<and>
      (last_replanned self' c = Some sim \<or> last_replanned self' c = last_replanned self c) \<and>
      (res = Inr replans \<longrightarrow> c \<in> fst ` set replans \<longrightarrow>
           last_replanned self' c = Some sim \<and> c \<in> fst ` set rc)"
    proof cases
      case zero
      with assms have "res = Inr []" "self' = self"
        by (simp_all add: replan_emit_def Let_def)
      then show ?thesis by simp
    next
      case unbound
      with assms have "res = Inl UnboundLocalError" "self' = self"
        by (auto simp: replan_emit_def Let_def min_def split: if_splits)
      then show ?thesis by simp
    next
      case run
      obtain rs s where f: "fold (replan_emit_step sim b ?xs) [0..<?n] ([], self) = (rs, s)"
        by (cases "fold (replan_emit_step sim b ?xs) [0..<?n] ([], self)")
      with assms run have res: "res = Inr rs" and s: "self' = s"
        by (auto simp: replan_emit_def Let_def min_def split: if_splits)
      have "?n \<le> length ?xs" by simp
      from replan_emit_step_fold [OF this f]
      have m: "map fst rs = map fst (take ?n ?xs)"
        and d: "patient_diagnoses s = patient_diagnoses self"
        and fp: "patient_first_plan s = patient_first_plan self"
        and l: "\<And>c. last_replanned s c =
            (if c \<in> fst ` set (take ?n ?xs) then Some sim else last_replanned self c)"
        by simp_all
      from m have "fst ` set rs = fst ` set (take ?n ?xs)"
        by (metis set_map)
      moreover have "set (take ?n ?xs) \<subseteq> set rc"
        using set_take_subset [of ?n ?xs] setxs by simp
      ultimately show ?thesis
        unfolding res s using d fp l by auto
    qed
    then show "patient_diagnoses self' = patient_diagnoses self"
      "patient_first_plan self' = patient_first_plan self"
      "last_replanned self' c = Some sim \<or> last_replanned self' c = last_replanned self c"
      "res = Inr replans \<Longrightarrow> c \<in> fst ` set replans \<Longrightarrow>
           last_replanned self' c = Some sim \<and> c \<in> fst ` set rc"
      by blast+
  qed
qed

lemma replan_scan2_elem:
  "replan_scan2 self sim td ctr = Inr rc \<Longrightarrow> (c, p, w) \<in> set rc \<Longrightarrow>
     c \<in> set ctr \<and> \<not> time_since_replan self sim c < 24"
  by (induction ctr arbitrary: rc)
     (auto split: if_splits option.splits sum.splits)

lemma replan_scan1_elem:
  "(c, p, w) \<in> set (replan_scan1 self sim td ctr) \<Longrightarrow>
     c \<in> set ctr \<and> \<not> time_since_replan self sim c < 24"
  by (induction ctr) (auto split: if_splits)

lemma plan_step2_fold_last:
  "fold (plan_step2 sim) ctp (self, loc, nc) = (self1, loc1, nc1) \<Longrightarrow>
     last_replanned self1 = last_replanned self \<and>
     patient_diagnoses self1 = patient_diagnoses self"
  by (induction ctp arbitrary: self loc nc)
     (auto simp: plan_step2_def Let_def split: if_splits)

lemma record_first_plan_fold_last:
  "last_replanned (fold (record_first_plan sim) ctp self) = last_replanned self \<and>
   patient_diagnoses (fold (record_first_plan sim) ctp self) = patient_diagnoses self"
  by (induction ctp arbitrary: self) (auto simp: record_first_plan_def)

lemma time_since_replan_cong:
  "last_replanned self1 = last_replanned self \<Longrightarrow>
     time_since_replan self1 sim c = time_since_replan self sim c"
  by (simp add: time_since_replan_def)

lemma plan2_parts_frame:
  assumes "OptimizedPlanner2_plan_parts self ctp ctr sim = (res, self')"
  shows "last_replanned self' c = Some sim \<or> last_replanned self' c = last_replanned self c"
proof -
  obtain self1 loc nc where f: "fold (plan_step2 sim) ctp
      (self, \<lparr>l_base_time = None, l_target_day = None\<rparr>, []) = (self1, loc, nc)"
    by (cases "fold (plan_step2 sim) ctp
      (self, \<lparr>l_base_time = None, l_target_day = None\<rparr>, [])")
  have l1: "last_replanned self1 = last_replanned self"
    using plan_step2_fold_last [OF f] by simp
  show ?thesis
  proof (cases "plan_new2 sim (l_base_time loc) (enumerate 0 nc)")
    case (Inl e)
    with assms f have "self' = self1"
      by (simp add: OptimizedPlanner2_plan_parts_def)
    with l1 show ?thesis by simp
  next
    case planned: (Inr planned)
    show ?thesis
    proof (cases "replan_scan2 self1 sim (l_target_day loc) ctr")
      case (Inl e)
      with assms f planned have "self' = self1"
        by (simp add: OptimizedPlanner2_plan_parts_def)
      with l1 show ?thesis by simp
    next
      case (Inr rc)
      obtain r2 self2 where e: "replan_emit 35 sim (l_base_time loc) rc self1 = (r2, self2)"
        by (cases "replan_emit 35 sim (l_base_time loc) rc self1")
      with assms f planned Inr have "self' = self2"
        by (cases r2) (simp_all add: OptimizedPlanner2_plan_parts_def)
      with replan_emit_facts(3) [OF e, of c] l1 show ?thesis by simp
    qed
  qed
qed

lemma plan2_parts_Inr:
  assumes "OptimizedPlanner2_plan_parts self ctp ctr sim = (Inr (planned, replans), self')"
  shows "\<exists>self1 loc nc rc.
     fold (plan_step2 sim) ctp (self, \<lparr>l_base_time = None, l_target_day = None\<rparr>, [])
       = (self1, loc, nc) \<and>
     plan_new2 sim (l_base_time loc) (enumerate 0 nc) = Inr planned \<and>
     replan_scan2 self1 sim (l_target_day loc) ctr = Inr rc \<and>
     replan_emit 35 sim (l_base_time loc) rc self1 = (Inr replans, self')"
  using assms unfolding OptimizedPlanner2_plan_parts_def
  by (auto split: prod.splits sum.splits)

lemma plan2_parts_emitted:
  assumes "OptimizedPlanner2_plan_parts self ctp ctr sim = (Inr (planned, replans), self')"
    and "c \<in> fst ` set replans"
  shows "last_replanned self' c = Some sim \<and> \<not> time_since_replan self sim c < 24
         \<and> c \<in> set ctr"
proof -
  from plan2_parts_Inr [OF assms(1)] obtain self1 loc nc rc where
    f: "fold (plan_step2 sim) ctp (self, \<lparr>l_base_time = None, l_target_day = None\<rparr>, [])
          = (self1, loc, nc)"
    and scan: "replan_scan2 self1 sim (l_target_day loc) ctr = Inr rc"
    and e: "replan_emit 35 sim (l_base_time loc) rc self1 = (Inr replans, self')"
    by blast
  have l1: "last_replanned self1 = last_replanned self"
    using plan_step2_fold_last [OF f] by simp
  from replan_emit_facts(4) [OF e refl assms(2)]
  have a: "last_replanned self' c = Some sim" and b: "c \<in> fst ` set rc" by simp_all
  from b obtain p w where "(c, p, w) \<in> set rc" by auto
  from replan_scan2_elem [OF scan this]
  have "c \<in> set ctr" "\<not> time_since_replan self1 sim c < 24" by simp_all
  with a show ?thesis
    by (simp add: time_since_replan_cong [OF l1])
qed

lemma plan1_parts_frame:
  assumes "OptimizedPlanner_plan_parts self ctp ctr sim = (res, self')"
  shows "last_replanned self' c = Some sim \<or> last_replanned self' c = last_replanned self c"
proof -
  let ?self1 = "fold (record_first_plan sim) ctp self"
  let ?lv = "fold (\<lambda>case_id _. Some (case_id, patient_diagnoses ?self1 case_id)) ctp None"
  have l1: "last_replanned ?self1 = last_replanned self"
    using record_first_plan_fold_last by blast
  show ?thesis
  proof (cases ?lv)
    case None
    with assms have "self' = ?self1"
      by (simp add: OptimizedPlanner_plan_parts_def Let_def)
    with l1 show ?thesis by simp
  next
    case (Some cd)
    obtain cid d where cd: "cd = (cid, d)" by (cases cd)
    let ?rc = "replan_scan1 ?self1 sim (target_day_loop (day_of_week_of sim)) ctr"
    obtain r2 self2 where e: "replan_emit 10 sim (Some (sim + 24)) ?rc ?self1 = (r2, self2)"
      by (cases "replan_emit 10 sim (Some (sim + 24)) ?rc ?self1")
    with assms Some cd have "self' = self2"
      by (cases r2) (simp_all add: OptimizedPlanner_plan_parts_def Let_def)
    with replan_emit_facts(3) [OF e, of c] l1 show ?thesis by simp
  qed
qed

lemma plan1_parts_Inr:
  assumes "OptimizedPlanner_plan_parts self ctp ctr sim = (Inr (planned, replans), self')"
  shows "replan_emit 10 sim (Some (sim + 24))
           (replan_scan1 (fold (record_first_plan sim) ctp self) sim
              (target_day_loop (day_of_week_of sim)) ctr)
           (fold (record_first_plan sim) ctp self) = (Inr replans, self')"
  using assms unfolding OptimizedPlanner_plan_parts_def Let_def
  by (auto split: option.splits prod.splits sum.splits)

lemma plan1_parts_emitted:
  assumes "OptimizedPlanner_plan_parts self ctp ctr sim = (Inr (planned, replans), self')"
    and "c \<in> fst ` set replans"
  shows "last_replanned self' c = Some sim \<and> \<not> time_since_replan self sim c < 24
         \<and> c \<in> set ctr"
proof -
  let ?self1 = "fold (record_first_plan sim) ctp self"
  let ?rc = "replan_scan1 ?self1 sim (target_day_loop (day_of_week_of sim)) ctr"
  have l1: "last_replanned ?self1 = last_replanned self"
    using record_first_plan_fold_last by blast
  note e = plan1_parts_Inr [OF assms(1)]
  from replan_emit_facts(4) [OF e refl assms(2)]
  have a: "last_replanned self' c = Some sim" and b: "c \<in> fst ` set ?rc" by simp_all
  from b obtain p w where "(c, p, w) \<in> set ?rc" by auto
  from replan_scan1_elem [OF this]
  have "c \<in> set ctr" "\<not> time_since_replan ?self1 sim c < 24" by simp_all
  with a show ?thesis
    by (simp add: time_since_replan_cong [OF l1])
qed

lemma length_run_plans: "length (run_plans P self calls) = length calls"
  by (induction calls arbitrary: self) (auto split: prod.splits)

lemma run_plans_skips:
  assumes frame: "\<And>self ctp ctr sim res self' c. P self ctp ctr sim = (res, self') \<Longrightarrow>
      last_replanned self' c = Some sim \<or> last_replanned self' c = last_replanned self c"
    and emitted: "\<And>self ctp ctr sim planned replans self' c.
      P self ctp ctr sim = (Inr (planned, replans), self') \<Longrightarrow> c \<in> fst ` set replans \<Longrightarrow>
      last_replanned self' c = Some sim \<and> \<not> time_since_replan self sim c < 24 \<and> c \<in> set ctr"
  shows "last_replanned self c = Some u \<Longrightarrow> t0 \<le> u \<Longrightarrow>
         \<forall>call \<in> set calls. t0 \<le> call_time call \<Longrightarrow>
         j < length calls \<Longrightarrow> call_time (calls ! j) - t0 < 24 \<Longrightarrow>
         c \<notin> set (run_plans P self calls ! j)"
proof (induction calls arbitrary: self u j)
  case Nil
  then show ?case by simp
next
  case (Cons call calls)
  obtain ctp ctr t where call: "call = (ctp, ctr, t)" by (cases call)
  obtain res self' where p: "P self ctp ctr t = (res, self')" by (cases "P self ctp ctr t")
  show ?case
  proof (cases j)
    case 0
    show ?thesis
    proof
      assume "c \<in> set (run_plans P self (call # calls) ! j)"
      with 0 call p obtain planned replans where res: "res = Inr (planned, replans)"
        and c: "c \<in> fst ` set replans"
        by (auto split: sum.splits)
      from emitted [OF p [unfolded res] c]
      have "\<not> time_since_replan self t c < 24" by simp
      moreover from Cons.prems 0 call have "t - u < 24"
        by (simp add: call_time_def)
      ultimately show False
        using Cons.prems(1) by (simp add: time_since_replan_def)
    qed
  next
    case (Suc k)
    from Cons.prems(3) call have t0: "t0 \<le> t" by (simp add: call_time_def)
    from frame [OF p, of c] Cons.prems(1,2) t0
    obtain u' where u': "last_replanned self' c = Some u'" "t0 \<le> u'"
      by auto
    from Cons.prems Suc have "\<forall>call \<in> set calls. t0 \<le> call_time call"
      "k < length calls" "call_time (calls ! k) - t0 < 24"
      by simp_all
    from Cons.IH [OF u' this] show ?thesis
      using Suc call p by simp
  qed
qed

lemma run_plans_cooldown:
  assumes frame: "\<And>self ctp ctr sim res self' c. P self ctp ctr sim = (res, self') \<Longrightarrow>
      last_replanned self' c = Some sim \<or> last_replanned self' c = last_replanned self c"
    and emitted: "\<And>self ctp ctr sim planned replans self' c.
      P self ctp ctr sim = (Inr (planned, replans), self') \<Longrightarrow> c \<in> fst ` set replans \<Longrightarrow>
      last_replanned self' c = Some sim \<and> \<not> time_since_replan self sim c < 24 \<and> c \<in> set ctr"
  shows "sorted (map call_time calls) \<Longrightarrow> i < j \<Longrightarrow> j < length calls \<Longrightarrow>
         call_time (calls ! j) - call_time (calls ! i) < 24 \<Longrightarrow>
         c \<in> set (run_plans P self calls ! i) \<Longrightarrow>
         c \<notin> set (run_plans P self calls ! j)"
proof (induction calls arbitrary: self i j)
  case Nil
  then show ?case by simp
next
  case (Cons call calls)
  obtain ctp ctr t where call: "call = (ctp, ctr, t)" by (cases call)
  obtain res self' where p: "P self ctp ctr t = (res, self')" by (cases "P self ctp ctr t")
  from Cons.prems(2) obtain k where j: "j = Suc k" by (cases j) auto
  show ?case
  proof (cases i)
    case 0
    with Cons.prems(5) call p obtain planned replans where res: "res = Inr (planned, replans)"
      and c: "c \<in> fst ` set replans"
      by (auto split: sum.splits)
    from emitted [OF p [unfolded res] c]
    have l: "last_replanned self' c = Some t" by simp
    from Cons.prems(1) call have ge: "\<forall>call \<in> set calls. t \<le> call_time call"
      by (simp add: call_time_def)
    from Cons.prems 0 j call have "k < length calls" "call_time (calls ! k) - t < 24"
      by (simp_all add: call_time_def)
    from run_plans_skips [of P, OF frame emitted l order_refl ge this]
    show ?thesis using j call p by simp
  next
    case (Suc i')
    from Cons.prems Suc j call p
    have "sorted (map call_time calls)" "i' < k" "k < length calls"
      "call_time (calls ! k) - call_time (calls ! i') < 24"
      "c \<in> set (run_plans P self' calls ! i')"
      by simp_all
    from Cons.IH [OF this] show ?thesis
      using j call p by simp
  qed
qed





section \<open>Facts about admission times\<close>

lemma py_round_ge:
  assumes "of_int n \<le> x"
  shows "n \<le> py_round x"
proof -
  from assms have "n \<le> \<lfloor>x\<rfloor>" by (simp add: le_floor_iff)
  moreover have "py_round x = \<lfloor>x\<rfloor> \<or> py_round x = \<lfloor>x\<rfloor> + 1"
    by (simp add: py_round_def Let_def)
  ultimately show ?thesis by auto
qed

lemma admission2_ge: "of_int k \<le> sim + 24 \<Longrightarrow> k \<le> admission2 sim b i p"
  unfolding admission2_def Let_def by (rule py_round_ge) simp

lemma plan_new2_elem:
  "plan_new2 sim bt xs = Inr planned \<Longrightarrow> (c, t) \<in> set planned \<Longrightarrow>
     \<exists>b i p. t = admission2 sim b i p"
proof (induction xs arbitrary: planned)
  case Nil
  then show ?case by simp
next
  case (Cons x xs)
  obtain i cid p where x: "x = (i, cid, p)" by (cases x)
  from Cons.prems(1) x obtain b rest where bt: "bt = Some b"
    and rest: "plan_new2 sim bt xs = Inr rest"
    and planned: "planned = (cid, admission2 sim b i p) # rest"
    by (auto split: option.splits sum.splits)
  from Cons.prems(2) planned consider "t = admission2 sim b i p" | "(c, t) \<in> set rest"
    by auto
  then show ?case
  proof cases
    case 1
    then show ?thesis by blast
  next
    case 2
    from Cons.IH [OF rest 2] show ?thesis .
  qed
qed

lemma replan_emit_step_fold_elem:
  "fold (replan_emit_step sim b xs) [0..<n] ([], self) = (rs, self') \<Longrightarrow>
     (c, t) \<in> set rs \<Longrightarrow> \<exists>i. t = py_round (b + of_nat i)"
proof (induction n arbitrary: rs self')
  case 0
  then show ?case by simp
next
  case (Suc n)
  obtain rs0 self0 where f0: "fold (replan_emit_step sim b xs) [0..<n] ([], self) = (rs0, self0)"
    by (cases "fold (replan_emit_step sim b xs) [0..<n] ([], self)")
  have "fold (replan_emit_step sim b xs) [0..<Suc n] ([], self)
          = replan_emit_step sim b xs n (rs0, self0)"
    by (simp add: f0)
  with Suc.prems(1) have st: "replan_emit_step sim b xs n (rs0, self0) = (rs, self')"
    by simp
  then have "(c, t) \<in> set rs0 \<or> t = py_round (b + of_nat n)"
    using Suc.prems(2)
    by (auto simp: replan_emit_step_def Let_def split: if_splits prod.splits)
  with Suc.IH [OF f0] show ?case by blast
qed

lemma replan_emit_elem:
  assumes "replan_emit limit sim bt rc self = (Inr replans, self')"
    and "(c, t) \<in> set replans"
  shows "\<exists>b i. bt = Some b \<and> t = py_round (b + of_nat i)"
proof (cases bt)
  case None
  with assms show ?thesis
    by (auto simp: replan_emit_def Let_def split: if_splits)
next
  case (Some b)
  let ?xs = "sort_key (\<lambda>(case_id, priority, wait_time). (priority, - wait_time)) rc"
  let ?n = "min limit (length ?xs)"
  obtain rs s where f: "fold (replan_emit_step sim b ?xs) [0..<?n] ([], self) = (rs, s)"
    by (cases "fold (replan_emit_step sim b ?xs) [0..<?n] ([], self)")
  with assms(1) Some have "replans = [] \<or> replans = rs"
    by (auto simp: replan_emit_def Let_def split: if_splits)
  with assms(2) have "(c, t) \<in> set rs" by auto
  from replan_emit_step_fold_elem [OF f this] Some show ?thesis by blast
qed

lemma plan_step2_base_time:
  "plan_step2 sim cid (self, loc, nc) = (self1, loc1, nc1) \<Longrightarrow>
     l_base_time loc1 = Some (sim + 24)"
  by (auto simp: plan_step2_def Let_def split: if_splits)

lemma plan_step2_fold_base_time:
  "fold (plan_step2 sim) ctp (self, loc, nc) = (self1, loc1, nc1) \<Longrightarrow>
     l_base_time loc1 = Some b \<Longrightarrow> b = sim + 24 \<or> l_base_time loc = Some b"
proof (induction ctp arbitrary: self loc nc)
  case Nil
  then show ?case by simp
next
  case (Cons cid ctp)
  obtain s2 l2 n2 where st: "plan_step2 sim cid (self, loc, nc) = (s2, l2, n2)"
    by (cases "plan_step2 sim cid (self, loc, nc)")
  with Cons.prems(1) have "fold (plan_step2 sim) ctp (s2, l2, n2) = (self1, loc1, nc1)"
    by simp
  from Cons.IH [OF this Cons.prems(2)] plan_step2_base_time [OF st]
  show ?case by auto
qed

text \<open>
  At an integer \<open>simulation_time\<close>, every entry that \<^verbatim>\<open>plan\<close> of OptimizedPlanner2.0
  returns is at least 24 hours ahead: rounding cannot go below an integer bound.
\<close>

lemma plan2_lead_time_integer:
  assumes "OptimizedPlanner2_plan self ctp ctr (of_int n) = (Inr out, self')"
    and "(c, t) \<in> set out"
  shows "n + 24 \<le> t"
proof -
  let ?sim = "of_int n :: rat"
  from assms(1) obtain planned replans where
    parts: "OptimizedPlanner2_plan_parts self ctp ctr ?sim = (Inr (planned, replans), self')"
    and out: "out = planned @ replans"
    unfolding OptimizedPlanner2_plan_def
    by (auto split: prod.splits sum.splits)
  from plan2_parts_Inr [OF parts] obtain self1 loc nc rc where
    f: "fold (plan_step2 ?sim) ctp (self, \<lparr>l_base_time = None, l_target_day = None\<rparr>, [])
          = (self1, loc, nc)"
    and new: "plan_new2 ?sim (l_base_time loc) (enumerate 0 nc) = Inr planned"
    and e: "replan_emit 35 ?sim (l_base_time loc) rc self1 = (Inr replans, self')"
    by blast
  have k: "rat_of_int (n + 24) \<le> ?sim + 24" by simp
  from assms(2) out consider "(c, t) \<in> set planned" | "(c, t) \<in> set replans" by auto
  then show ?thesis
  proof cases
    case 1
    from plan_new2_elem [OF new 1] obtain b i p where "t = admission2 ?sim b i p" by blast
    with admission2_ge [OF k] show ?thesis by simp
  next
    case 2
    from replan_emit_elem [OF e 2] obtain b i where
      b: "l_base_time loc = Some b" and t: "t = py_round (b + of_nat i)" by blast
    from plan_step2_fold_base_time [OF f b] have "b = ?sim + 24" by simp
    then have "rat_of_int (n + 24) \<le> b + of_nat i" by simp
    from py_round_ge [OF this] t show ?thesis by simp
  qed
qed

text \<open>\<^verbatim>\<open>HeuristicPlanner.plan\<close> emits \<open>simulation_time + 24\<close> or \<open>+ 48\<close>, unrounded.\<close>

lemma HeuristicPlanner_plan_lead_time:
  "(c, t) \<in> set (HeuristicPlanner_plan patient_info ctp ctr sim) \<Longrightarrow> sim + 24 \<le> t"
  by (auto simp: HeuristicPlanner_plan_def Let_def split: if_splits)

section \<open>Claims on schedule\<close>

text \<open>
  Claim C2. Every triple that \<^verbatim>\<open>schedule\<close> emits with an effective time less than 158
  hours after \<open>simulation_time\<close> has a count greater than or equal to the authoritative
  count for its type and time, which is what \<^verbatim>\<open>get_current\<close> answers: the fixed maxima
  in OptimizedPlanner2.0, the simulator's schedule (or the maxima when it is missing or
  raises) in OptimizedPlanner. \<^verbatim>\<open>HeuristicPlanner.schedule\<close> emits no triple that early,
  whatever the authoritative count \<open>current\<close> is.
\<close>

theorem C2_near_horizon_no_decrease:
  "(\<forall>(r, t, c) \<in> set (fst (OptimizedPlanner2_schedule self simulation_time)).
      t < simulation_time + 158 \<longrightarrow> get_current2 t r \<le> c) \<and>
   (\<forall>(r, t, c) \<in> set (fst (OptimizedPlanner_schedule simulator self simulation_time)).
      t < simulation_time + 158 \<longrightarrow> get_current1 simulator t r \<le> c) \<and>
   (\<forall>(r, t, c) \<in> set (HeuristicPlanner_schedule simulation_time).
      t < simulation_time + 158 \<longrightarrow> current t r \<le> c)"
proof (intro conjI ballI; clarify)
  fix r t c
  assume "(r, t, c) \<in> set (fst (OptimizedPlanner2_schedule self simulation_time))"
    and "t < simulation_time + 158"
  then show "get_current2 t r \<le> c"
    using schedule_with_elem [of r t c get_current2 simulation_time]
    by (simp add: OptimizedPlanner2_schedule_def)
next
  fix r t c
  assume "(r, t, c) \<in> set (fst (OptimizedPlanner_schedule simulator self simulation_time))"
    and "t < simulation_time + 158"
  then show "get_current1 simulator t r \<le> c"
    using schedule_with_elem [of r t c "get_current1 simulator" simulation_time]
    by (simp add: OptimizedPlanner_schedule_def)
next
  fix r t c
  assume "(r, t, c) \<in> set (HeuristicPlanner_schedule simulation_time)"
    and "t < simulation_time + 158"
  then show "current t r \<le> c"
    using HeuristicPlanner_schedule_elem [of r t c simulation_time] by simp
qed

theorem C2_near_horizon_no_decrease_witness:
  "(OR, 32, 3) \<in> set (fst (OptimizedPlanner_schedule (Some (\<lambda>r t. Some 0))
                            (OptimizedPlanner_init :: string OptimizedPlanner) 18)) \<and>
   (32 :: rat) < 18 + 158 \<and>
   get_current1 (Some (\<lambda>r t. Some 0)) 32 OR \<le> 3"
proof -
  have mem: "(OR, 32, 3) \<in> set (fst (OptimizedPlanner_schedule (Some (\<lambda>r t. Some 0))
                            (OptimizedPlanner_init :: string OptimizedPlanner) 18))"
    by code_simp
  have near: "(32 :: rat) < 18 + 158" by simp
  from C2_near_horizon_no_decrease
         [of OptimizedPlanner_init 18 "Some (\<lambda>r t. Some 0)" "\<lambda>t r. 0"] mem near
  have "get_current1 (Some (\<lambda>r t. Some 0)) 32 OR \<le> 3" by blast
  with mem near show ?thesis by blast
qed

text \<open>
  Claim C6. Every triple emitted by \<^verbatim>\<open>schedule\<close> (OptimizedPlanner2.0, OptimizedPlanner
  and HeuristicPlanner) has a count between 0 and the maximum of its resource type:
  operating rooms 5, A beds 30, B beds 40, intake 4, ER practitioners 9.
\<close>

theorem C6_count_within_maximum:
  "(\<forall>(r, t, c) \<in> set (fst (OptimizedPlanner2_schedule self simulation_time)).
      0 \<le> c \<and> c \<le> resource_max r) \<and>
   (\<forall>(r, t, c) \<in> set (fst (OptimizedPlanner_schedule simulator self simulation_time)).
      0 \<le> c \<and> c \<le> resource_max r) \<and>
   (\<forall>(r, t, c) \<in> set (HeuristicPlanner_schedule simulation_time).
      0 \<le> c \<and> c \<le> resource_max r)"
proof (intro conjI ballI; clarify)
  fix r t c
  assume "(r, t, c) \<in> set (fst (OptimizedPlanner2_schedule self simulation_time))"
  then show "0 \<le> c \<and> c \<le> resource_max r"
    using schedule_with_elem [of r t c get_current2 simulation_time]
    by (simp add: OptimizedPlanner2_schedule_def default_max_get_resource_max)
next
  fix r t c
  assume "(r, t, c) \<in> set (fst (OptimizedPlanner_schedule simulator self simulation_time))"
  then show "0 \<le> c \<and> c \<le> resource_max r"
    using schedule_with_elem [of r t c "get_current1 simulator" simulation_time]
    by (simp add: OptimizedPlanner_schedule_def default_max_get_resource_max)
next
  fix r t c
  assume "(r, t, c) \<in> set (HeuristicPlanner_schedule simulation_time)"
  then show "0 \<le> c \<and> c \<le> resource_max r"
    using HeuristicPlanner_schedule_elem [of r t c simulation_time]
    by (simp add: default_max_get_resource_max)
qed

theorem C6_count_within_maximum_witness:
  "(OR, 176, 3) \<in> set (fst (OptimizedPlanner2_schedule
                             (OptimizedPlanner_init :: string OptimizedPlanner) 18)) \<and>
   (OR, 176, 5) \<in> set (HeuristicPlanner_schedule 18) \<and>
   resource_max OR = 5"
proof -
  have m2: "(OR, 176, 3) \<in> set (fst (OptimizedPlanner2_schedule
                             (OptimizedPlanner_init :: string OptimizedPlanner) 18))"
    by code_simp
  have mh: "(OR, 176, 5) \<in> set (HeuristicPlanner_schedule 18)"
    by code_simp
  from C6_count_within_maximum [of OptimizedPlanner_init 18 None] m2 mh
  have "(3 :: int) \<le> resource_max OR" and "(5 :: int) \<le> resource_max OR"
    by blast+
  moreover have "resource_max OR \<le> 5" by (simp add: resource_max_def)
  ultimately have "resource_max OR = 5" by simp
  with m2 mh show ?thesis by blast
qed




text \<open>
  Claim C10. In OptimizedPlanner2.0 every triple that \<^verbatim>\<open>schedule\<close> emits has an
  effective time of \<open>simulation_time + 158\<close> or later: \<^verbatim>\<open>get_current\<close> always answers
  the maximum of the type, no table count exceeds it, so every checkpoint inside the
  near horizon is skipped.
\<close>

theorem C10_no_near_horizon_emission:
  "\<forall>(r, t, c) \<in> set (fst (OptimizedPlanner2_schedule self simulation_time)).
     simulation_time + 158 \<le> t"
proof (clarify)
  fix r t c
  assume "(r, t, c) \<in> set (fst (OptimizedPlanner2_schedule self simulation_time))"
  then have "(r, t, c) \<in> set (schedule_with get_current2 simulation_time)"
    by (simp add: OptimizedPlanner2_schedule_def)
  from schedule_with_elem [OF this]
  have "c \<le> default_max_get r"
    and "t < simulation_time + 158 \<longrightarrow> get_current2 t r < c"
    by simp_all
  then show "simulation_time + 158 \<le> t"
    by (auto simp: get_current2_def)
qed

theorem C10_no_near_horizon_emission_witness:
  "hour_of_day_of 18 = 18 \<and>
   (OR, 176, 3) \<in> set (fst (OptimizedPlanner2_schedule
                             (OptimizedPlanner_init :: string OptimizedPlanner) 18)) \<and>
   (18 :: rat) + 158 \<le> 176"
proof -
  have h: "hour_of_day_of 18 = 18" by code_simp
  have mem: "(OR, 176, 3) \<in> set (fst (OptimizedPlanner2_schedule
                             (OptimizedPlanner_init :: string OptimizedPlanner) 18))"
    by code_simp
  from C10_no_near_horizon_emission [of OptimizedPlanner_init 18] mem
  have "(18 :: rat) + 158 \<le> 176" by blast
  with h mem show ?thesis by blast
qed

section \<open>Claims on the replan cooldown\<close>

text \<open>
  Claim C3. Run any list of \<^verbatim>\<open>plan\<close> calls with non-decreasing times on one planner,
  from any planner state. If call \<open>i\<close> comes before call \<open>j\<close> and their times differ
  by less than 24, no case id is among the entries the replanning loop emitted in both
  calls. This holds for OptimizedPlanner2.0 and for OptimizedPlanner.
\<close>

theorem C3_replan_cooldown:
  assumes "sorted (map call_time calls)" and "i < j" and "j < length calls"
    and "call_time (calls ! j) - call_time (calls ! i) < 24"
  shows "set (run_plans OptimizedPlanner2_plan_parts self calls ! i)
           \<inter> set (run_plans OptimizedPlanner2_plan_parts self calls ! j) = {} \<and>
         set (run_plans OptimizedPlanner_plan_parts self calls ! i)
           \<inter> set (run_plans OptimizedPlanner_plan_parts self calls ! j) = {}"
proof -
  have "c \<notin> set (run_plans OptimizedPlanner2_plan_parts self calls ! j)"
    if "c \<in> set (run_plans OptimizedPlanner2_plan_parts self calls ! i)" for c
    by (rule run_plans_cooldown [of OptimizedPlanner2_plan_parts,
          OF plan2_parts_frame plan2_parts_emitted assms that])
  moreover
  have "c \<notin> set (run_plans OptimizedPlanner_plan_parts self calls ! j)"
    if "c \<in> set (run_plans OptimizedPlanner_plan_parts self calls ! i)" for c
    by (rule run_plans_cooldown [of OptimizedPlanner_plan_parts,
          OF plan1_parts_frame plan1_parts_emitted assms that])
  ultimately show ?thesis by (simp add: disjoint_iff)
qed

theorem C3_replan_cooldown_witness:
  "sorted (map call_time [([''C1''], [''C2''], 200), ([''C1''], [''C2''], 210), ([''C1''], [''C2''], 225)]) \<and>
   run_plans OptimizedPlanner2_plan_parts OptimizedPlanner_init
     [([''C1''], [''C2''], 200), ([''C1''], [''C2''], 210), ([''C1''], [''C2''], 225)]
     = [[''C2''], [], [''C2'']] \<and>
   run_plans OptimizedPlanner_plan_parts OptimizedPlanner_init
     [([''C1''], [''C2''], 200), ([''C1''], [''C2''], 210), ([''C1''], [''C2''], 225)]
     = [[''C2''], [], [''C2'']] \<and>
   set (run_plans OptimizedPlanner2_plan_parts OptimizedPlanner_init
     [([''C1''], [''C2''], 200), ([''C1''], [''C2''], 210), ([''C1''], [''C2''], 225)] ! 0)
   \<inter> set (run_plans OptimizedPlanner2_plan_parts OptimizedPlanner_init
     [([''C1''], [''C2''], 200), ([''C1''], [''C2''], 210), ([''C1''], [''C2''], 225)] ! 1) = {}"
proof -
  let ?calls = "[([''C1''], [''C2''], 200), ([''C1''], [''C2''], 210), ([''C1''], [''C2''], 225)]
                  :: string plan_call list"
  have s: "sorted (map call_time ?calls)" by code_simp
  have ij: "(0 :: nat) < 1" "1 < length ?calls" by simp_all
  have d: "call_time (?calls ! 1) - call_time (?calls ! 0) < 24" by code_simp
  have r2: "run_plans OptimizedPlanner2_plan_parts OptimizedPlanner_init ?calls
              = [[''C2''], [], [''C2'']]" by code_simp
  have r1: "run_plans OptimizedPlanner_plan_parts OptimizedPlanner_init ?calls
              = [[''C2''], [], [''C2'']]" by code_simp
  from C3_replan_cooldown [OF s ij d, of OptimizedPlanner_init] s r2 r1 show ?thesis by blast
qed




section \<open>Claims on plan, at concrete inputs\<close>

text \<open>
  Claim C1. The claim asks every emitted admission time to be at least
  \<open>simulation_time + 24\<close>, also at non-integer times. \<^verbatim>\<open>plan\<close> of OptimizedPlanner2.0
  rounds the admission time after clamping it: at \<open>simulation_time = 100.25\<close> the
  replanned case \<open>C2\<close> is admitted at 124, before 124.25. (At integer times the bound
  holds, see \<open>plan2_lead_time_integer\<close>.)
\<close>

theorem C1_rounding_breaks_lead_time:
  "fst (OptimizedPlanner2_plan OptimizedPlanner_init [''C1''] [''C2''] (401 / 4))
     = Inr [(''C1'', 128), (''C2'', 124)] \<and>
   rat_of_int 124 < 401 / 4 + 24"
  by code_simp

text \<open>
  Claim C4. The claim says \<^verbatim>\<open>plan\<close> never raises. With an empty \<^verbatim>\<open>cases_to_plan\<close>,
  OptimizedPlanner2.0 raises at the first case of \<^verbatim>\<open>cases_to_replan\<close> that passes the
  cooldown test (\<^verbatim>\<open>target_day\<close> is unbound), and OptimizedPlanner raises whatever
  \<^verbatim>\<open>cases_to_replan\<close> is (\<^verbatim>\<open>diagnosis\<close> is unbound).
\<close>

theorem C4_plan_raises:
  "fst (OptimizedPlanner2_plan OptimizedPlanner_init [] [''C2''] 100)
     = Inl UnboundLocalError \<and>
   fst (OptimizedPlanner_plan (OptimizedPlanner_init :: string OptimizedPlanner) [] [] 100)
     = Inl UnboundLocalError"
  by code_simp

text \<open>
  Claim C9. On a fresh planner, \<^verbatim>\<open>plan(["C1"], [], 100)\<close> returns exactly one entry
  \<open>(C1, t)\<close> with \<open>t \<ge> 124\<close>, in OptimizedPlanner2.0 and in OptimizedPlanner (where
  \<open>t = 128\<close>).
\<close>

theorem C9_new_case_no_history:
  "(\<exists>t. fst (OptimizedPlanner2_plan OptimizedPlanner_init [''C1''] [] 100)
          = Inr [(''C1'', t)] \<and> 124 \<le> t) \<and>
   (\<exists>t. fst (OptimizedPlanner_plan OptimizedPlanner_init [''C1''] [] 100)
          = Inr [(''C1'', t)] \<and> 124 \<le> t)"
proof -
  have p2: "fst (OptimizedPlanner2_plan OptimizedPlanner_init [''C1''] [] 100)
              = Inr [(''C1'', 128)]"
    by code_simp
  have p1: "fst (OptimizedPlanner_plan OptimizedPlanner_init [''C1''] [] 100)
              = Inr [(''C1'', 128)]"
    by code_simp
  show ?thesis unfolding p2 p1 by simp
qed

section \<open>Claims on HeuristicPlanner.calculate_priority\<close>

lemma calculate_priority_replan:
  "calculate_priority patient_info case_id simulation_time True =
     calculate_priority patient_info case_id simulation_time False + 20"
  by (simp add: calculate_priority_def Let_def)

text \<open>
  Claim C8. The claim says that the score with \<open>is_replan = True\<close> is never greater than
  the score with \<open>is_replan = False\<close>. The code adds \<^verbatim>\<open>replanning_penalty = 20\<close> to a score
  where higher means more urgent, so the replanned case outranks the new one: for a case
  with no ledger entry at time 100 the scores are 20 and 0.
\<close>

theorem C8_replan_scores_higher:
  "calculate_priority Map.empty ''C1'' 100 True = 20 \<and>
   calculate_priority Map.empty ''C1'' 100 False = 0 \<and>
   calculate_priority Map.empty ''C1'' 100 False
     < calculate_priority Map.empty ''C1'' 100 True"
  by (simp add: calculate_priority_def)

end
